theory Spec2Isabelle
  imports Complex_Main
begin

unbundle bit_operations_syntax

section \<open>The PWM configuration solver of \<^verbatim>\<open>src/App.tsx\<close>\<close>

text \<open>
  The embedding follows the \<^verbatim>\<open>calculation\<close> memo of \<^verbatim>\<open>App.tsx\<close> (lines 44 to 117).

  Numbers. A JavaScript number is an IEEE 754 binary64 value. A finite one is modelled
  by the rational it denotes, and every arithmetic operation of the source on
  \<^verbatim>\<open>clockFreq\<close>, \<^verbatim>\<open>targetFreq\<close> and \<^verbatim>\<open>dutyCycle\<close> is the exact operation followed by
  the rounding \<open>fl\<close> to the nearest double (ties to even). The sign of a zero is not
  kept: in the source it only decides between plus and minus infinity in a division
  by zero, and line 56 rejects both. \<^verbatim>\<open>selectedTimer\<close> (set to 0, 1 or 2 by the
  three buttons of line 216), the prescaler and the values that come out of
  \<^verbatim>\<open>Math.round\<close> are integers. The inputs are finite: lines 158, 183 and 199 set
  them with \<^verbatim>\<open>Number(e.target.value)\<close> from number and range inputs.
\<close>

subsection \<open>Rounding to a double\<close>

text \<open>The number of binary digits of a natural number.\<close>

fun bit_length :: "nat \<Rightarrow> nat" where
  "bit_length n = (if n = 0 then 0 else Suc (bit_length (n div 2)))"

declare bit_length.simps [simp del]

text \<open>For a positive \<open>x\<close>, the exponent \<open>k\<close> with \<open>2 powi k \<le> x < 2 powi (k + 1)\<close>.\<close>

definition floor_log2 :: "rat \<Rightarrow> int" where
  "floor_log2 x =
     (if 1 \<le> x then int (bit_length (nat \<lfloor>x\<rfloor>)) - 1
      else (let L = int (bit_length (nat \<lfloor>1 / x\<rfloor>))
            in if x * 2 powi (L - 1) = 1 then 1 - L else - L))"

text \<open>
  The exponent of the last place of a double near \<open>x\<close>: 53 significant bits, and
  never below \<open>-1074\<close>, the last place of the subnormal numbers.
\<close>

definition ulp_exp :: "rat \<Rightarrow> int" where
  "ulp_exp x = max (- 1074) (floor_log2 \<bar>x\<bar> - 52)"

text \<open>The nearest integer, a tie going to the even one.\<close>

definition round_half_even :: "rat \<Rightarrow> int" where
  "round_half_even y =
     (let f = \<lfloor>y\<rfloor>; d = y - of_int f
      in if d < 1 / 2 then f else if 1 / 2 < d then f + 1
         else if even f then f else f + 1)"

text \<open>Round to nearest, ties to even, with the exponent unbounded above.\<close>

definition fl :: "rat \<Rightarrow> rat" where
  "fl x = (if x = 0 then 0
           else of_int (round_half_even (x / 2 powi ulp_exp x)) * 2 powi ulp_exp x)"

text \<open>The result of a double operation: \<open>None\<close> when it overflows to an infinity.\<close>

definition double_round :: "rat \<Rightarrow> rat option" where
  "double_round x = (let v = fl x in if 2 ^ 1024 \<le> \<bar>v\<bar> then None else Some v)"

text \<open>The rationals that are finite doubles.\<close>

definition is_double :: "rat \<Rightarrow> bool" where
  "is_double x \<longleftrightarrow> double_round x = Some x"

subsection \<open>Number formatting\<close>

text \<open>
  \<^verbatim>\<open>Math.round\<close> on a finite double: the nearest integer, a tie going towards plus
  infinity. The result is a double again, so nothing is rounded here.
\<close>

definition Math_round :: "rat \<Rightarrow> int" where
  "Math_round x = \<lfloor>x + 1 / 2\<rfloor>"

definition digit_char :: "nat \<Rightarrow> char" where
  "digit_char d = ''0123456789abcdefghijklmnopqrstuvwxyz'' ! (d mod 36)"

text \<open>
  \<^verbatim>\<open>Number.prototype.toString(radix)\<close> on a non-negative integer, radix from 2 to 36.
  The source uses radix 16 and, in its template literals, radix 10; the test
  \<open>radix < 2\<close> only keeps the recursion total.
\<close>

fun nat_toString :: "nat \<Rightarrow> nat \<Rightarrow> string" where
  "nat_toString radix n =
     (if n < radix \<or> radix < 2 then [digit_char n]
      else nat_toString radix (n div radix) @ [digit_char (n mod radix)])"

declare nat_toString.simps [simp del]

text \<open>
  The same on any integer: a negative one carries a minus sign. In radix 10 this is
  also what a template literal prints for an integer below \<open>10^21\<close>; with a duty
  cycle between 0 and 100 no number printed by the source exceeds 65536.
\<close>

definition toString :: "nat \<Rightarrow> int \<Rightarrow> string" where
  "toString radix i =
     (if i < 0 then CHR ''-'' # nat_toString radix (nat (- i))
      else nat_toString radix (nat i))"

text \<open>\<^verbatim>\<open>String.prototype.toUpperCase\<close> on the characters the source gives it (ASCII).\<close>

definition upper_char :: "char \<Rightarrow> char" where
  "upper_char c =
     (case map_of (zip ''abcdefghijklmnopqrstuvwxyz'' ''ABCDEFGHIJKLMNOPQRSTUVWXYZ'') c of
        None \<Rightarrow> c
      | Some u \<Rightarrow> u)"

definition toUpperCase :: "string \<Rightarrow> string" where
  "toUpperCase s = map upper_char s"

text \<open>
  \<^verbatim>\<open>parseInt(s, 2)\<close> on a string of binary digits, the only strings the source
  passes to it (the \<^verbatim>\<open>csBits\<close> literals).
\<close>

definition parseInt2 :: "string \<Rightarrow> nat" where
  "parseInt2 s = foldl (\<lambda>acc c. 2 * acc + (if c = CHR ''1'' then 1 else 0)) 0 s"

subsection \<open>The result record\<close>

text \<open>
  The only error of the source is the fixed message of line 114 (a Persian sentence:
  the requested frequency cannot be reached with this timer and clock frequency);
  \<open>FrequencyNotAchievable\<close> stands for that string, \<open>None\<close> for \<^verbatim>\<open>null\<close>.
\<close>

datatype calc_error = FrequencyNotAchievable

record register =
  name :: string
  value_str :: string
  description :: string

record PWMResult =
  timer :: int
  prescaler :: int
  top_val :: int
  ocr :: int
  frequency :: rat
  actualFrequency :: rat
  dutyCycle :: rat
  actualDutyCycle :: rat
  error :: "calc_error option"
  registers :: "register list"

subsection \<open>The prescaler search\<close>

definition prescalers :: "int list" where
  "prescalers = [1, 8, 64, 256, 1024]"

definition maxTop :: "int \<Rightarrow> int" where
  "maxTop selectedTimer = (if selectedTimer = 1 then 65535 else 255)"

text \<open>
  Line 54, \<^verbatim>\<open>Math.round(clockFreq / (N * targetFreq)) - 1\<close>. When the product
  overflows, the quotient is a zero and the top is \<open>-1\<close>. \<open>None\<close> is a top that is
  not finite (a division by zero or a quotient that overflows), which no comparison
  of line 56 accepts. The subtraction of 1 is a double operation as well: it is
  exact up to \<open>2 ^ 53\<close>.
\<close>

definition candidate_top :: "rat \<Rightarrow> int \<Rightarrow> rat \<Rightarrow> int option" where
  "candidate_top clockFreq N targetFreq =
     (case double_round (of_int N * targetFreq) of
        None \<Rightarrow> Some (- 1)
      | Some p \<Rightarrow>
          if p = 0 then None
          else (case double_round (clockFreq / p) of
                  None \<Rightarrow> None
                | Some q \<Rightarrow> Some \<lfloor>fl (of_int (Math_round q) - 1)\<rfloor>))"

text \<open>Line 56: \<^verbatim>\<open>top > 0 && top <= maxTop\<close>.\<close>

definition top_ok :: "int \<Rightarrow> int option \<Rightarrow> bool" where
  "top_ok selectedTimer t =
     (case t of None \<Rightarrow> False | Some topN \<Rightarrow> topN > 0 \<and> topN \<le> maxTop selectedTimer)"

text \<open>Lines 68, 76 to 78: the clock-select bits, one table per timer.\<close>

definition csBits :: "int \<Rightarrow> int \<Rightarrow> string" where
  "csBits selectedTimer N =
     (if selectedTimer = 1 then
        (if N = 1 then ''001'' else if N = 8 then ''010'' else if N = 64 then ''011''
         else if N = 256 then ''100'' else ''101'')
      else if selectedTimer = 0 then
        (if N = 1 then ''001'' else if N = 8 then ''010'' else if N = 64 then ''011''
         else if N = 256 then ''100'' else ''101'')
      else
        (if N = 1 then ''001'' else if N = 8 then ''010'' else if N = 32 then ''011''
         else if N = 64 then ''100'' else if N = 128 then ''101''
         else if N = 256 then ''110'' else ''111''))"

text \<open>Line 81: \<^verbatim>\<open>`0x0${(8 | parseInt(csBits, 2)).toString(16)}`\<close>.\<close>

definition tccrb :: "int \<Rightarrow> int \<Rightarrow> string" where
  "tccrb selectedTimer N =
     ''0x0'' @ nat_toString 16 (8 OR parseInt2 (csBits selectedTimer N))"

text \<open>Lines 62 to 87: the four register writes.\<close>

definition make_registers :: "int \<Rightarrow> int \<Rightarrow> int \<Rightarrow> int \<Rightarrow> register list" where
  "make_registers selectedTimer N topN ocrN =
     (if selectedTimer = 1 then
        [\<lparr>name = ''TCCR1A'', value_str = ''0x82'',
          description = ''COM1A1=1, WGM11=1 (Fast PWM, Non-inverting)''\<rparr>,
         \<lparr>name = ''TCCR1B'',
          value_str = ''0x1'' @ nat_toString 16 (parseInt2 (csBits selectedTimer N)),
          description = ''WGM13=1, WGM12=1, CS='' @ csBits selectedTimer N
            @ '' (Prescaler '' @ toString 10 N @ '')''\<rparr>,
         \<lparr>name = ''ICR1'', value_str = ''0x'' @ toUpperCase (toString 16 topN),
          description = ''TOP value for frequency ('' @ toString 10 topN @ '' decimal)''\<rparr>,
         \<lparr>name = ''OCR1A'', value_str = ''0x'' @ toUpperCase (toString 16 (max 0 ocrN)),
          description = ''Duty cycle value ('' @ toString 10 (max 0 ocrN) @ '' decimal)''\<rparr>]
      else
        [\<lparr>name = ''TCCR'' @ toString 10 selectedTimer @ ''A'',
          value_str = (if selectedTimer = 0 then ''0x23'' else ''0x23''),
          description = ''Fast PWM mode, OCnB non-inverting''\<rparr>,
         \<lparr>name = ''TCCR'' @ toString 10 selectedTimer @ ''B'',
          value_str = tccrb selectedTimer N,
          description = ''WGMn2=1, CS='' @ csBits selectedTimer N
            @ '' (Prescaler '' @ toString 10 N @ '')''\<rparr>,
         \<lparr>name = ''OCR'' @ toString 10 selectedTimer @ ''A'',
          value_str = ''0x'' @ toUpperCase (toString 16 topN),
          description = ''TOP value for frequency ('' @ toString 10 topN @ '' decimal)''\<rparr>,
         \<lparr>name = ''OCR'' @ toString 10 selectedTimer @ ''B'',
          value_str = ''0x'' @ toUpperCase (toString 16 (max 0 ocrN)),
          description = ''Duty cycle value ('' @ toString 10 (max 0 ocrN) @ '' decimal)''\<rparr>])"

text \<open>
  Line 58, \<^verbatim>\<open>Math.round(((top + 1) * dutyCycle) / 100) - 1\<close>: the compare value
  before it is clamped. \<^verbatim>\<open>dutyCycle\<close> is the value of the slider of lines 194 to 200,
  between 0 and 100; on that range the product does not overflow and the result is
  an integer between \<open>-1\<close> and 65535.
\<close>

definition raw_ocr :: "int \<Rightarrow> rat \<Rightarrow> int" where
  "raw_ocr topN duty =
     \<lfloor>fl (of_int (Math_round (fl (fl (of_int (topN + 1) * duty) / 100))) - 1)\<rfloor>"

text \<open>
  Lines 57 to 100: the record built for an accepted prescaler. The top is an integer
  between 1 and 65535, so \<^verbatim>\<open>N * (1 + top)\<close>, \<^verbatim>\<open>top + 1\<close> and \<^verbatim>\<open>ocr + 1\<close> are exact; the
  two quotients and the product by 100 are rounded.
\<close>

definition configured :: "rat \<Rightarrow> rat \<Rightarrow> rat \<Rightarrow> int \<Rightarrow> int \<Rightarrow> int \<Rightarrow> PWMResult" where
  "configured clockFreq targetFreq duty selectedTimer N topN =
     (let actualFreq = fl (clockFreq / of_int (N * (1 + topN)));
          ocrN = raw_ocr topN duty;
          actualDuty = fl (fl (of_int (ocrN + 1) / of_int (topN + 1)) * 100)
      in \<lparr>timer = selectedTimer, prescaler = N, top_val = topN, ocr = max 0 ocrN,
          frequency = targetFreq, actualFrequency = actualFreq,
          dutyCycle = duty, actualDutyCycle = actualDuty,
          error = None, registers = make_registers selectedTimer N topN ocrN\<rparr>)"

text \<open>The loop of lines 51 to 103: the first accepted prescaler ends it.\<close>

fun search :: "rat \<Rightarrow> rat \<Rightarrow> rat \<Rightarrow> int \<Rightarrow> int list \<Rightarrow> PWMResult option" where
  "search clockFreq targetFreq duty selectedTimer [] = None"
| "search clockFreq targetFreq duty selectedTimer (N # Ns) =
     (case candidate_top clockFreq N targetFreq of
        None \<Rightarrow> search clockFreq targetFreq duty selectedTimer Ns
      | Some topN \<Rightarrow>
          if topN > 0 \<and> topN \<le> maxTop selectedTimer
          then Some (configured clockFreq targetFreq duty selectedTimer N topN)
          else search clockFreq targetFreq duty selectedTimer Ns)"

text \<open>Lines 105 to 116: the record returned when the loop found nothing.\<close>

definition unachievable :: "rat \<Rightarrow> rat \<Rightarrow> int \<Rightarrow> PWMResult" where
  "unachievable targetFreq duty selectedTimer =
     \<lparr>timer = selectedTimer, prescaler = 0, top_val = 0, ocr = 0,
      frequency = targetFreq, actualFrequency = 0,
      dutyCycle = duty, actualDutyCycle = 0,
      error = Some FrequencyNotAchievable, registers = []\<rparr>"

definition calculation :: "rat \<Rightarrow> rat \<Rightarrow> rat \<Rightarrow> int \<Rightarrow> PWMResult" where
  "calculation clockFreq targetFreq duty selectedTimer =
     (case search clockFreq targetFreq duty selectedTimer prescalers of
        Some bestResult \<Rightarrow> bestResult
      | None \<Rightarrow> unachievable targetFreq duty selectedTimer)"

section \<open>Properties of the rounding\<close>

text \<open>Powers of two with an integer exponent.\<close>

lemma pow2_add: "(2::rat) powi (a + b) = 2 powi a * 2 powi b"
  by (simp add: power_int_add)

lemma pow2_plus1: "(2::rat) powi (e + 1) = 2 * 2 powi e"
  by (simp add: power_int_add)

lemma pow2_pos: "0 < (2::rat) powi e"
  by simp

lemma pow2_mono: "a \<le> b \<Longrightarrow> (2::rat) powi a \<le> 2 powi b"
  by (rule power_int_increasing) simp_all

lemma pow2_nat: "0 \<le> e \<Longrightarrow> (2::rat) powi e = of_int (2 ^ nat e)"
  by (simp add: power_int_def)

lemma bit_length_pos: "0 < n \<Longrightarrow> 0 < bit_length n"
  by (subst bit_length.simps) simp

lemma bit_length_bounds:
  "0 < n \<Longrightarrow> 2 ^ (bit_length n - 1) \<le> n \<and> n < 2 ^ bit_length n"
proof (induction n rule: bit_length.induct)
  case (1 n)
  show ?case
  proof (cases "n div 2 = 0")
    case True
    with "1.prems" have "n = 1" by (simp add: div_eq_0_iff) 
    then show ?thesis by (simp add: bit_length.simps)
  next
    case False
    then have pos: "0 < n div 2" by simp
    from "1.IH" [OF _ pos] "1.prems"
    have ih: "2 ^ (bit_length (n div 2) - 1) \<le> n div 2" "n div 2 < 2 ^ bit_length (n div 2)"
      by auto
    have bl: "bit_length n = Suc (bit_length (n div 2))"
      using "1.prems" by (subst bit_length.simps) simp
    from bit_length_pos [OF pos] obtain k where k: "bit_length (n div 2) = Suc k"
      by (cases "bit_length (n div 2)") auto
    from ih show ?thesis
      unfolding bl k by simp linarith
  qed
qed

lemma floor_log2_bounds:
  assumes "0 < x"
  shows "2 powi floor_log2 x \<le> x" "x < 2 powi (floor_log2 x + 1)"
proof -
  have "2 powi floor_log2 x \<le> x \<and> x < 2 powi (floor_log2 x + 1)"
  proof (cases "1 \<le> x")
    case True
    define a where "a = nat \<lfloor>x\<rfloor>"
    have apos: "0 < a" using True by (simp add: a_def)
    define L where "L = bit_length a"
    from bit_length_bounds [OF apos] have b: "2 ^ (L - 1) \<le> a" "a < 2 ^ L"
      by (simp_all add: L_def)
    have Lpos: "0 < L" using bit_length_pos [OF apos] by (simp add: L_def)
    have fl: "floor_log2 x = int L - 1"
      using True by (simp add: floor_log2_def a_def L_def)
    have ax: "(of_nat a :: rat) \<le> x" "x < of_nat a + 1"
      using True by (simp_all add: a_def) linarith+
    have "(2::rat) powi (int L - 1) = 2 ^ (L - 1)"
      using Lpos by (simp add: power_int_def nat_diff_distrib')
    moreover have "(2::rat) ^ (L - 1) \<le> of_nat a"
      using b(1) by (metis of_nat_le_iff of_nat_numeral of_nat_power)
    moreover have "(of_nat a :: rat) + 1 \<le> 2 ^ L"
    proof -
      have "a + 1 \<le> 2 ^ L" using b(2) by simp
      then have "(of_nat (a + 1) :: rat) \<le> of_nat (2 ^ L)" by (simp only: of_nat_le_iff)
      then show ?thesis by simp
    qed
    moreover have "(2::rat) powi (int L - 1 + 1) = 2 ^ L" by simp
    ultimately show ?thesis using ax unfolding fl by linarith
  next
    case False
    then have x1: "x < 1" by simp
    define y where "y = 1 / x"
    have y1: "1 < y" using assms x1 by (simp add: y_def)
    define b where "b = nat \<lfloor>y\<rfloor>"
    have bpos: "0 < b" using y1 by (simp add: b_def)
    define L where "L = bit_length b"
    from bit_length_bounds [OF bpos] have bb: "2 ^ (L - 1) \<le> b" "b < 2 ^ L"
      by (simp_all add: L_def)
    have Lpos: "0 < L" using bit_length_pos [OF bpos] by (simp add: L_def)
    have by': "(of_nat b :: rat) \<le> y" "y < of_nat b + 1"
      using y1 by (simp_all add: b_def) linarith+
    have lo: "(2::rat) ^ (L - 1) \<le> y"
    proof -
      have "(2::rat) ^ (L - 1) \<le> of_nat b"
        using bb(1) by (metis of_nat_le_iff of_nat_numeral of_nat_power)
      then show ?thesis using by'(1) by (rule order_trans)
    qed
    have hi: "y < 2 ^ L"
    proof -
      have "b + 1 \<le> 2 ^ L" using bb(2) by simp
      then have "(of_nat (b + 1) :: rat) \<le> of_nat (2 ^ L)" by (simp only: of_nat_le_iff)
      then have "(of_nat b :: rat) + 1 \<le> 2 ^ L" by simp
      with by'(2) show ?thesis by (rule less_le_trans)
    qed
    have p1: "(2::rat) powi (1 - int L) = 1 / 2 ^ (L - 1)"
    proof -
      have "1 - int L = - int (L - 1)" using Lpos by simp
      then show ?thesis by (simp add: power_int_minus_divide del: of_nat_diff)
    qed
    have p2: "(2::rat) powi (- int L) = 1 / 2 ^ L"
      by (simp add: power_int_minus_divide)
    have p3: "(2::rat) powi (int L - 1) = 2 ^ (L - 1)"
      using Lpos by (simp add: power_int_def nat_diff_distrib')
    have xle: "x \<le> 1 / 2 ^ (L - 1)"
      using lo assms by (simp add: y_def field_simps)
    have xgt: "1 / 2 ^ L < x"
      using hi assms by (simp add: y_def field_simps)
    show ?thesis
    proof (cases "x * 2 powi (int L - 1) = 1")
      case True
      then have fl: "floor_log2 x = 1 - int L"
        using False by (simp add: floor_log2_def Let_def y_def b_def L_def)
      have xeq: "x = 1 / 2 ^ (L - 1)"
        using True unfolding p3 by (simp add: field_simps)
      have xe: "x = 2 powi (1 - int L)" using xeq p1 by simp
      have "(2::rat) powi (1 - int L) < 2 * 2 powi (1 - int L)"
        using pow2_pos [of "1 - int L"] by linarith
      then have "x \<le> x \<and> x < 2 powi (1 - int L + 1)"
        unfolding pow2_plus1 using xe by simp
      then show ?thesis unfolding fl using xe by simp
    next
      case F: False
      then have fl: "floor_log2 x = - int L"
        using False by (simp add: floor_log2_def Let_def y_def b_def L_def)
      have "x \<noteq> 1 / 2 ^ (L - 1)"
        using F unfolding p3 by auto
      with xle have "x < 1 / 2 ^ (L - 1)" by simp
      moreover have "- int L + 1 = 1 - int L" by simp
      ultimately show ?thesis unfolding fl using xgt p1 p2 by (simp del: of_nat_diff)
    qed
  qed
  then show "2 powi floor_log2 x \<le> x" "x < 2 powi (floor_log2 x + 1)" by simp_all
qed

text \<open>
  The rounding is to a nearest double: no number \<open>m * 2 powi e\<close> with a significand
  of at most 53 bits and an exponent of at least \<open>-1074\<close> is closer to \<open>x\<close> than
  \<open>fl x\<close>. Such a number is therefore rounded to itself.
\<close>

lemma ulp_exp_ge: "- 1074 \<le> ulp_exp x"
  by (simp add: ulp_exp_def)

lemma ulp_exp_upper:
  assumes "x \<noteq> 0"
  shows "\<bar>x\<bar> < 2 powi (ulp_exp x + 53)"
proof -
  have "\<bar>x\<bar> < 2 powi (floor_log2 \<bar>x\<bar> + 1)"
    using assms by (intro floor_log2_bounds) simp
  also have "\<dots> \<le> 2 powi (ulp_exp x + 53)"
    by (rule pow2_mono) (simp add: ulp_exp_def)
  finally show ?thesis .
qed

lemma ulp_exp_lower:
  assumes "x \<noteq> 0" "ulp_exp x \<noteq> - 1074"
  shows "2 powi (ulp_exp x + 52) \<le> \<bar>x\<bar>"
proof -
  from assms(2) have "ulp_exp x = floor_log2 \<bar>x\<bar> - 52"
    by (simp add: ulp_exp_def max_def split: if_splits)
  then have "2 powi (ulp_exp x + 52) = (2::rat) powi floor_log2 \<bar>x\<bar>" by simp
  also have "\<dots> \<le> \<bar>x\<bar>"
    using assms(1) by (intro floor_log2_bounds) simp
  finally show ?thesis .
qed

lemma round_half_even_cases:
  "round_half_even y = round y \<or> (round_half_even y = \<lfloor>y\<rfloor> \<and> y - of_int \<lfloor>y\<rfloor> = 1 / 2)"
proof -
  have "y - of_int \<lfloor>y\<rfloor> < 1 / 2 \<Longrightarrow> round y = \<lfloor>y\<rfloor>"
    unfolding round_def by linarith
  moreover have "1 / 2 \<le> y - of_int \<lfloor>y\<rfloor> \<Longrightarrow> round y = \<lfloor>y\<rfloor> + 1"
    unfolding round_def by linarith
  ultimately show ?thesis
    by (auto simp: round_half_even_def Let_def)
qed

lemma round_half_even_dist:
  "\<bar>of_int (round_half_even y) - y\<bar> = \<bar>of_int (round y) - y\<bar>"
proof -
  from round_half_even_cases [of y] show ?thesis
  proof
    assume "round_half_even y = round y"
    then show ?thesis by simp
  next
    assume a: "round_half_even y = \<lfloor>y\<rfloor> \<and> y - of_int \<lfloor>y\<rfloor> = 1 / 2"
    then have "round y = \<lfloor>y\<rfloor> + 1" unfolding round_def by linarith
    with a show ?thesis by simp
  qed
qed

lemma round_half_even_nearest:
  "\<bar>of_int (round_half_even y) - y\<bar> \<le> \<bar>of_int k - y\<bar>"
proof -
  have "\<bar>of_int (round_half_even y) - y\<bar> = \<bar>of_int (round y) - y\<bar>"
    by (rule round_half_even_dist)
  also have "\<dots> = \<bar>y - of_int (round y)\<bar>" by (rule abs_minus_commute)
  also have "\<dots> \<le> \<bar>y - of_int k\<bar>" by (rule round_diff_minimal)
  also have "\<dots> = \<bar>of_int k - y\<bar>" by (rule abs_minus_commute)
  finally show ?thesis .
qed

lemma round_half_even_of_int: "round_half_even (of_int k) = k"
  by (simp add: round_half_even_def)

lemma round_half_even_bound:
  assumes "\<bar>y\<bar> < of_int M"
  shows "\<bar>round_half_even y\<bar> \<le> M"
proof -
  have "\<lfloor>y\<rfloor> < M" "- M \<le> \<lfloor>y\<rfloor>" using assms by linarith+
  moreover have "round_half_even y = \<lfloor>y\<rfloor> \<or> round_half_even y = \<lfloor>y\<rfloor> + 1"
    by (auto simp: round_half_even_def Let_def)
  ultimately show ?thesis by linarith
qed

lemma fl_nearest:
  assumes "\<bar>m\<bar> \<le> 2 ^ 53" "- 1074 \<le> e"
  shows "\<bar>fl x - x\<bar> \<le> \<bar>of_int m * 2 powi e - x\<bar>"
proof (cases "x = 0")
  case True
  then show ?thesis by (simp add: fl_def)
next
  case False
  define u :: rat where "u = 2 powi ulp_exp x"
  define y where "y = x / u"
  define d where "d = of_int m * (2::rat) powi e"
  have upos: "0 < u" by (simp add: u_def)
  have flx: "fl x = of_int (round_half_even y) * u"
    using False by (simp add: fl_def u_def y_def)
  have xu: "x = y * u" using upos by (simp add: y_def)
  have scale: "\<bar>of_int k * u - x\<bar> = \<bar>of_int k - y\<bar> * u" for k :: int
  proof -
    have "of_int k * u - x = (of_int k - y) * u" by (simp add: xu algebra_simps)
    then show ?thesis using upos by (simp add: abs_mult)
  qed
  have near: "\<bar>fl x - x\<bar> \<le> \<bar>of_int k * u - x\<bar>" for k :: int
    unfolding flx scale using round_half_even_nearest [of y k] upos
    by (simp add: mult_right_mono)
  show ?thesis
  proof (cases "ulp_exp x \<le> e")
    case True
    define k where "k = m * 2 ^ nat (e - ulp_exp x)"
    have "(2::rat) powi e = 2 powi (e - ulp_exp x) * u"
      unfolding u_def pow2_add [symmetric] by simp
    also have "(2::rat) powi (e - ulp_exp x) = of_int (2 ^ nat (e - ulp_exp x))"
      using True by (intro pow2_nat) simp
    finally have "d = of_int k * u"
      by (simp add: d_def k_def)
    with near [of k] show ?thesis by (simp add: d_def)
  next
    case F: False
    then have lt: "e + 1 \<le> ulp_exp x" by simp
    with assms(2) have "ulp_exp x \<noteq> - 1074" by simp
    from ulp_exp_lower [OF False this] have lo: "2 powi (ulp_exp x + 52) \<le> \<bar>x\<bar>" .
    have p52: "(2::rat) powi (ulp_exp x + 52) = of_int (2 ^ 52) * u"
      unfolding u_def by (simp add: pow2_add)
    have "\<bar>d\<bar> = of_int \<bar>m\<bar> * 2 powi e"
      by (simp add: d_def abs_mult)
    also have "\<dots> \<le> of_int (2 ^ 53) * 2 powi e"
      using assms(1) by (intro mult_right_mono) (simp_all only: of_int_le_iff, simp)
    also have "\<dots> = 2 powi (e + 1 + 52)"
      by (simp add: pow2_add)
    also have "\<dots> \<le> 2 powi (ulp_exp x + 52)"
      using lt by (intro pow2_mono) simp
    finally have dle: "\<bar>d\<bar> \<le> 2 powi (ulp_exp x + 52)" .
    show ?thesis
    proof (cases "0 < x")
      case True
      have "\<bar>fl x - x\<bar> \<le> \<bar>of_int (2 ^ 52) * u - x\<bar>" by (rule near)
      also have "\<dots> = x - 2 powi (ulp_exp x + 52)"
        using lo True by (simp add: p52)
      also have "\<dots> \<le> x - d" using dle by linarith
      also have "\<dots> \<le> \<bar>d - x\<bar>" by linarith
      finally show ?thesis by (simp add: d_def)
    next
      case Fx: False
      with False have neg: "x < 0" by simp
      have "\<bar>fl x - x\<bar> \<le> \<bar>of_int (- (2 ^ 52)) * u - x\<bar>" by (rule near)
      also have "\<dots> = - x - 2 powi (ulp_exp x + 52)"
        using lo neg by (simp add: p52)
      also have "\<dots> \<le> d - x" using dle by linarith
      also have "\<dots> \<le> \<bar>d - x\<bar>" by linarith
      finally show ?thesis by (simp add: d_def)
    qed
  qed
qed

lemma fl_exact:
  assumes "\<bar>m\<bar> \<le> 2 ^ 53" "- 1074 \<le> e"
  shows "fl (of_int m * 2 powi e) = of_int m * 2 powi e"
  using fl_nearest [OF assms, of "of_int m * 2 powi e"] by simp

lemma fl_int_exact: "\<bar>k\<bar> \<le> 2 ^ 53 \<Longrightarrow> fl (of_int k) = of_int k"
  using fl_exact [of k 0] by simp

lemma is_double_repr:
  assumes "is_double x"
  obtains m e where "\<bar>m\<bar> \<le> 2 ^ 53" "- 1074 \<le> e" "x = of_int m * 2 powi e"
proof (cases "x = 0")
  case True
  then have "\<bar>0::int\<bar> \<le> 2 ^ 53" "- 1074 \<le> (0::int)" "x = of_int 0 * 2 powi 0" by simp_all
  then show ?thesis by (rule that)
next
  case False
  from assms have fx: "fl x = x"
    by (auto simp: is_double_def double_round_def Let_def split: if_splits)
  define u :: rat where "u = 2 powi ulp_exp x"
  have upos: "0 < u" by (simp add: u_def)
  have "\<bar>x / u\<bar> < of_int (2 ^ 53)"
  proof -
    have "\<bar>x\<bar> < 2 powi (ulp_exp x + 53)" by (rule ulp_exp_upper [OF False])
    also have "\<dots> = of_int (2 ^ 53) * u" by (simp add: u_def pow2_add)
    finally show ?thesis using upos by (simp add: field_simps)
  qed
  then have "\<bar>round_half_even (x / u)\<bar> \<le> 2 ^ 53" by (rule round_half_even_bound)
  moreover have "x = of_int (round_half_even (x / u)) * 2 powi ulp_exp x"
    using fx False by (simp add: fl_def u_def)
  ultimately show ?thesis using ulp_exp_ge [of x] by (intro that)
qed

section \<open>Evaluation and structure lemmas\<close>

text \<open>The floor of a quotient of numerals, for evaluating the model on concrete inputs.\<close>

lemma floor_numeral_div_rat:
  "\<lfloor>numeral a / numeral b :: rat\<rfloor> = numeral a div numeral b"
  using floor_divide_of_int_eq [of "numeral a" "numeral b", where ?'a = rat] by simp

lemma floor_one_div_rat:
  "\<lfloor>1 / numeral b :: rat\<rfloor> = 1 div numeral b"
  using floor_divide_of_int_eq [of 1 "numeral b", where ?'a = rat] by simp

lemma floor_neg_numeral_div_rat:
  "\<lfloor>- (numeral a / numeral b) :: rat\<rfloor> = - numeral a div numeral b"
  using floor_divide_of_int_eq [of "- numeral a" "numeral b", where ?'a = rat] by simp

lemma floor_minus_one_rat: "\<lfloor>- 1 :: rat\<rfloor> = - 1"
  using floor_of_int [of "- 1", where ?'a = rat] by simp

lemmas fl_eval =
  fl_def ulp_exp_def floor_log2_def round_half_even_def double_round_def
  bit_length.simps Let_def floor_numeral_div_rat floor_one_div_rat
  floor_neg_numeral_div_rat floor_minus_one_rat

lemmas eval_simps =
  calculation_def prescalers_def candidate_top_def maxTop_def configured_def
  Math_round_def raw_ocr_def fl_eval

lemma parseInt2_values:
  "parseInt2 ''001'' = 1" "parseInt2 ''010'' = 2" "parseInt2 ''011'' = 3"
  "parseInt2 ''100'' = 4" "parseInt2 ''101'' = 5" "parseInt2 ''110'' = 6"
  "parseInt2 ''111'' = 7"
  by (simp_all add: parseInt2_def)

text \<open>The control-register-B strings of the two 8-bit timers, prescaler by prescaler.\<close>

lemma tccrb_timer0:
  "tccrb 0 N =
     (if N = 1 then ''0x09'' else if N = 8 then ''0x0a'' else if N = 64 then ''0x0b''
      else if N = 256 then ''0x0c'' else ''0x0d'')"
  by (simp add: tccrb_def csBits_def parseInt2_values nat_toString.simps digit_char_def)

lemma tccrb_timer2:
  "tccrb 2 N =
     (if N = 1 then ''0x09'' else if N = 8 then ''0x0a'' else if N = 32 then ''0x0b''
      else if N = 64 then ''0x0c'' else if N = 128 then ''0x0d''
      else if N = 256 then ''0x0e'' else ''0x0f'')"
  by (simp add: tccrb_def csBits_def parseInt2_values nat_toString.simps digit_char_def)

text \<open>The loop returns the record of the first accepted prescaler of the list.\<close>

lemma search_filter:
  "search c t d tm Ns =
     (case filter (\<lambda>N. top_ok tm (candidate_top c N t)) Ns of
        [] \<Rightarrow> None
      | N # _ \<Rightarrow> Some (configured c t d tm N (the (candidate_top c N t))))"
  by (induction Ns) (auto simp: top_ok_def split: option.splits)

lemma search_None:
  "search c t d tm Ns = None \<longleftrightarrow> (\<forall>N \<in> set Ns. \<not> top_ok tm (candidate_top c N t))"
  by (induction Ns) (auto simp: top_ok_def split: option.splits)

lemma search_Some:
  assumes "search c t d tm Ns = Some r"
  obtains N topN where "N \<in> set Ns" "candidate_top c N t = Some topN"
    "0 < topN" "topN \<le> maxTop tm" "r = configured c t d tm N topN"
  using assms
proof (induction Ns)
  case Nil
  then show ?case by simp
next
  case (Cons M Ms)
  show ?case
  proof (cases "top_ok tm (candidate_top c M t)")
    case True
    then obtain topM where "candidate_top c M t = Some topM" "0 < topM" "topM \<le> maxTop tm"
      by (auto simp: top_ok_def split: option.splits)
    with Cons.prems show ?thesis by auto
  next
    case False
    then have "search c t d tm (M # Ms) = search c t d tm Ms"
      by (auto simp: top_ok_def split: option.splits)
    with Cons show ?thesis by auto
  qed
qed

text \<open>Every call ends in one of two ways: a configured record, or the error record.\<close>

lemma calculation_cases:
  obtains (configured) N topN where "N \<in> set prescalers"
      "candidate_top c N t = Some topN" "0 < topN" "topN \<le> maxTop tm"
      "calculation c t d tm = configured c t d tm N topN"
  | (unachievable) "\<forall>N \<in> set prescalers. \<not> top_ok tm (candidate_top c N t)"
      "calculation c t d tm = unachievable t d tm"
proof (cases "search c t d tm prescalers")
  case None
  then have "\<forall>N \<in> set prescalers. \<not> top_ok tm (candidate_top c N t)"
    by (simp add: search_None)
  moreover from None have "calculation c t d tm = unachievable t d tm"
    by (simp add: calculation_def)
  ultimately show ?thesis by (rule unachievable)
next
  case (Some r)
  then have "calculation c t d tm = r"
    by (simp add: calculation_def)
  with Some show ?thesis
    by (elim search_Some) (rule configured, simp_all)
qed

lemma sorted_filter_hd_Min:
  fixes xs :: "int list"
  assumes "sorted xs" "filter P xs = y # ys"
  shows "y = Min {x \<in> set xs. P x}"
proof -
  have "sorted (filter P xs)"
    using assms(1) sorted_filter [of "\<lambda>x. x" xs P] by simp
  then have le: "\<forall>z \<in> set (filter P xs). y \<le> z"
    using assms(2) by auto
  have "y \<in> set (filter P xs)"
    using assms(2) by simp
  then have "Min (set (filter P xs)) = y"
    using le by (intro Min_eqI) auto
  then show ?thesis by (simp add: set_filter [symmetric] del: set_filter)
qed

lemma sorted_prescalers: "sorted prescalers"
  by (simp add: prescalers_def)

text \<open>The fields of a configured record.\<close>

lemma configured_fields:
  "timer (configured c t d tm N topN) = tm"
  "prescaler (configured c t d tm N topN) = N"
  "top_val (configured c t d tm N topN) = topN"
  "ocr (configured c t d tm N topN) = max 0 (raw_ocr topN d)"
  "frequency (configured c t d tm N topN) = t"
  "actualFrequency (configured c t d tm N topN) = fl (c / of_int (N * (1 + topN)))"
  "dutyCycle (configured c t d tm N topN) = d"
  "actualDutyCycle (configured c t d tm N topN) =
     fl (fl (of_int (raw_ocr topN d + 1) / of_int (topN + 1)) * 100)"
  "error (configured c t d tm N topN) = None"
  "registers (configured c t d tm N topN) = make_registers tm N topN (raw_ocr topN d)"
  by (simp_all add: configured_def Let_def)

lemma make_registers_length: "length (make_registers tm N topN ocrN) = 4"
  by (simp add: make_registers_def)

lemma make_registers_nonempty: "make_registers tm N topN ocrN \<noteq> []"
  using make_registers_length [of tm N topN ocrN] by auto

lemma csBits_timer0_timer2:
  "N \<in> set prescalers \<Longrightarrow> csBits 0 N = csBits 2 N \<longleftrightarrow> N \<in> {1, 8}"
  by (auto simp: prescalers_def csBits_def)

lemma tccrb_timer0_timer2:
  "N \<in> set prescalers \<Longrightarrow> tccrb 0 N = tccrb 2 N \<longleftrightarrow> N \<in> {1, 8}"
  by (auto simp: prescalers_def tccrb_timer0 tccrb_timer2)

text \<open>
  The rounding on some concrete values: one tenth; the largest double and the
  overflow above it; and the compare value of line 58 for top 249 at the duty cycles
  0.6 and 64.6 (the doubles nearest to them), where the rounded product and quotient
  differ from the exact ones.
\<close>

lemma fl_one_tenth: "fl (1 / 10) = 3602879701896397 / 36028797018963968"
  by (simp add: fl_eval)

lemma double_round_overflow:
  "double_round (2 ^ 1024 - 2 ^ 971) = Some (2 ^ 1024 - 2 ^ 971)"
  "double_round (2 ^ 1024 - 2 ^ 970) = None"
  by (simp_all add: fl_eval)

lemma raw_ocr_rounded_examples:
  "raw_ocr 249 (5404319552844595 / 9007199254740992) = 1"
  "raw_ocr 249 (2272910436938547 / 35184372088832) = 160"
  by (simp_all add: raw_ocr_def Math_round_def fl_eval)

section \<open>The rounding error of an accepted prescaler\<close>

lemma prescalers_positive: "N \<in> set prescalers \<Longrightarrow> 0 < N"
  by (auto simp: prescalers_def)

lemma prescaler_times_double:
  assumes "is_double t" "N \<in> set prescalers"
  shows "fl (of_int N * t) = of_int N * t"
proof -
  from assms(1) obtain m e where me: "\<bar>m\<bar> \<le> 2 ^ 53" "- 1074 \<le> e" "t = of_int m * 2 powi e"
    by (rule is_double_repr)
  have "N = 2 ^ 0 \<or> N = 2 ^ 3 \<or> N = 2 ^ 6 \<or> N = 2 ^ 8 \<or> N = 2 ^ 10"
    using assms(2) by (simp add: prescalers_def)
  then obtain n :: nat where "N = 2 ^ n" by blast
  then have "(of_int N :: rat) = 2 powi int n" by simp
  then obtain k :: int where k: "0 \<le> k" "(of_int N :: rat) = 2 powi k"
    using of_nat_0_le_iff by blast
  have "of_int N * t = of_int m * 2 powi (e + k)"
    by (simp add: me(3) k(2) pow2_add)
  moreover have "fl (of_int m * 2 powi (e + k)) = of_int m * 2 powi (e + k)"
    using me(1,2) k(1) by (intro fl_exact) simp_all
  ultimately show ?thesis by simp
qed

lemma floor_fl_minus_one:
  assumes "0 < \<lfloor>fl (of_int R - 1)\<rfloor>" "\<lfloor>fl (of_int R - 1)\<rfloor> \<le> 65535"
  shows "\<lfloor>fl (of_int R - 1)\<rfloor> = R - 1"
proof -
  define z where "z = R - 1"
  have zr: "(of_int R :: rat) - 1 = of_int z" by (simp add: z_def)
  consider "\<bar>z\<bar> \<le> 2 ^ 53" | "2 ^ 53 < z" | "z < - (2 ^ 53)" by linarith
  then show ?thesis
  proof cases
    case 1
    then have "fl (of_int z) = of_int z" by (rule fl_int_exact)
    then have "\<lfloor>fl (of_int z)\<rfloor> = z" by simp
    then show ?thesis unfolding zr by (simp only: z_def)
  next
    case 2
    have "\<bar>fl (of_int z) - of_int z\<bar> \<le> \<bar>of_int (2 ^ 53) * 2 powi 0 - of_int z\<bar>"
      by (rule fl_nearest) simp_all
    also have "\<dots> = of_int z - of_int (2 ^ 53)"
      using 2 by simp
    finally have "(of_int (2 ^ 53) :: rat) \<le> fl (of_int z)" by linarith
    then have "2 ^ 53 \<le> \<lfloor>fl (of_int z)\<rfloor>" by (simp add: le_floor_iff)
    with assms(2) show ?thesis by (simp add: zr)
  next
    case 3
    have "\<bar>fl (of_int z) - of_int z\<bar> \<le> \<bar>of_int (- (2 ^ 53)) * 2 powi 0 - of_int z\<bar>"
      by (rule fl_nearest) simp_all
    also have "\<dots> = - of_int (2 ^ 53) - of_int z"
      using 3 by simp
    finally have "fl (of_int z) \<le> (of_int (- (2 ^ 53)) :: rat)" by simp
    then have "\<lfloor>fl (of_int z)\<rfloor> \<le> - (2 ^ 53)" by (simp add: floor_le_iff)
    with assms(1) show ?thesis by (simp add: zr)
  qed
qed

lemma candidate_top_accepted:
  assumes "candidate_top c N t = Some topN" "0 < topN" "topN \<le> 65535"
    and "is_double t" "N \<in> set prescalers"
  shows "of_int N * t \<noteq> 0" "topN + 1 = Math_round (fl (c / (of_int N * t)))"
proof -
  have ex: "fl (of_int N * t) = of_int N * t"
    using assms(4,5) by (rule prescaler_times_double)
  from assms(1,2) obtain p where p: "double_round (of_int N * t) = Some p"
    by (cases "double_round (of_int N * t)") (auto simp: candidate_top_def)
  then have pe: "p = of_int N * t"
    using ex by (auto simp: double_round_def Let_def split: if_splits)
  from assms(1) p have p0: "p \<noteq> 0"
    by (auto simp: candidate_top_def split: if_splits)
  with pe show "of_int N * t \<noteq> 0" by simp
  from assms(1) p p0 obtain q where q: "double_round (c / p) = Some q"
    and top: "topN = \<lfloor>fl (of_int (Math_round q) - 1)\<rfloor>"
    by (cases "double_round (c / p)") (auto simp: candidate_top_def)
  from q have qe: "q = fl (c / p)"
    by (auto simp: double_round_def Let_def split: if_splits)
  from top assms(2,3) have "topN = Math_round q - 1"
    using floor_fl_minus_one [of "Math_round q"] by simp
  then show "topN + 1 = Math_round (fl (c / (of_int N * t)))"
    by (simp add: qe pe)
qed

lemma fl_error_small:
  assumes "0 < q" "q < 2 ^ 17"
  shows "\<bar>fl q - q\<bar> \<le> 1 / 2 ^ 37"
proof -
  define k where "k = \<lfloor>q * 2 ^ 36\<rfloor>"
  have k0: "0 \<le> k" using assms(1) by (simp add: k_def)
  have "q * 2 ^ 36 < 2 ^ 17 * 2 ^ 36" using assms(2) by simp
  then have "q * 2 ^ 36 < of_int (2 ^ 53)" by simp
  then have k53: "k < 2 ^ 53" unfolding k_def by (simp only: floor_less_iff)
  have p36: "(2::rat) powi (- 36) = 1 / 2 ^ 36"
    by (simp add: power_int_minus_divide)
  have lo: "of_int k * (2::rat) powi (- 36) \<le> q"
  proof -
    have "of_int k \<le> q * 2 ^ 36" unfolding k_def by (rule of_int_floor_le)
    then show ?thesis unfolding p36 by (simp add: field_simps)
  qed
  have hi: "q < of_int (k + 1) * (2::rat) powi (- 36)"
  proof -
    have "q * 2 ^ 36 < of_int (k + 1)" unfolding k_def by linarith
    then show ?thesis unfolding p36 by (simp add: field_simps)
  qed
  have "\<bar>fl q - q\<bar> \<le> \<bar>of_int k * 2 powi (- 36) - q\<bar>"
    using k0 k53 by (intro fl_nearest) simp_all
  then have a: "\<bar>fl q - q\<bar> \<le> q - of_int k * 2 powi (- 36)" using lo by simp
  have "\<bar>fl q - q\<bar> \<le> \<bar>of_int (k + 1) * 2 powi (- 36) - q\<bar>"
    using k0 k53 by (intro fl_nearest) simp_all
  then have b: "\<bar>fl q - q\<bar> \<le> of_int (k + 1) * 2 powi (- 36) - q" using hi by simp
  have c: "of_int (k + 1) * (2::rat) powi (- 36) - of_int k * 2 powi (- 36) = 1 / 2 ^ 36"
    unfolding p36 by (simp add: field_simps)
  have "\<bar>fl q - q\<bar> + \<bar>fl q - q\<bar>
      \<le> (q - of_int k * 2 powi (- 36)) + (of_int (k + 1) * 2 powi (- 36) - q)"
    using a b by (rule add_mono)
  also have "\<dots> = 1 / 2 ^ 36" using c by simp
  finally show ?thesis by simp
qed

lemma relative_error_bound:
  fixes c t :: rat
  assumes "0 < c" "0 < t" "is_double t" "0 < N" "0 < topN" "topN \<le> 65535"
    and "topN + 1 = Math_round (fl (c / (of_int N * t)))"
  shows "\<bar>fl (c / of_int (N * (1 + topN))) - t\<bar> / t \<le> 1 / of_int topN"
proof -
  define q where "q = c / (of_int N * t)"
  define R :: rat where "R = of_int (topN + 1)"
  define a where "a = c / of_int (N * (1 + topN))"
  have qpos: "0 < q" using assms(1,2,4) by (simp add: q_def)
  have Rpos: "0 < R" using assms(5) by (simp add: R_def)
  have Rle: "R \<le> 65536" using assms(6) by (simp add: R_def)
  have R_floor: "R = of_int \<lfloor>fl q + 1 / 2\<rfloor>"
    using assms(7) by (simp add: R_def q_def Math_round_def)
  have flq: "R - 1 / 2 \<le> fl q" "fl q < R + 1 / 2"
    unfolding R_floor by linarith+
  have q17: "q < 2 ^ 17"
  proof (rule ccontr)
    assume "\<not> q < 2 ^ 17"
    then have ge: "2 ^ 17 \<le> q" by simp
    have "\<bar>fl q - q\<bar> \<le> \<bar>of_int (2 ^ 17) * 2 powi 0 - q\<bar>"
      by (rule fl_nearest) simp_all
    also have "\<dots> = q - 2 ^ 17" using ge by simp
    finally have "2 ^ 17 \<le> fl q" by linarith
    with flq(2) Rle show False by simp
  qed
  have err: "\<bar>fl q - q\<bar> \<le> 1 / 2 ^ 37"
    using qpos q17 by (rule fl_error_small)
  have dist: "\<bar>q - R\<bar> \<le> 1 / 2 + 1 / 2 ^ 37"
    using err flq by linarith
  have c_eq: "c = q * (of_int N * t)"
  proof -
    have "of_int N * t \<noteq> 0" using assms(2,4) by simp
    then show ?thesis unfolding q_def by simp
  qed
  have "a = q * t / R"
    unfolding a_def using assms(4) Rpos by (subst c_eq) (simp add: R_def add.commute)
  then have at: "a - t = t * ((q - R) / R)"
    using Rpos by (simp add: field_simps)
  have adist: "\<bar>a - t\<bar> = t * (\<bar>q - R\<bar> / R)"
    unfolding at using assms(2) Rpos by (simp add: abs_mult)
  from assms(3) obtain m e where me: "\<bar>m\<bar> \<le> 2 ^ 53" "- 1074 \<le> e" "t = of_int m * 2 powi e"
    by (rule is_double_repr)
  have "\<bar>fl a - a\<bar> \<le> \<bar>t - a\<bar>"
    unfolding me(3) using me(1,2) by (rule fl_nearest)
  then have "\<bar>fl a - t\<bar> \<le> 2 * \<bar>a - t\<bar>"
    using abs_triangle_ineq [of "fl a - a" "a - t"] by (simp add: abs_minus_commute)
  also have "\<dots> = t * (2 * \<bar>q - R\<bar> / R)" by (simp add: adist)
  also have "\<dots> \<le> t * ((1 + 1 / 2 ^ 36) / R)"
  proof -
    have "2 * \<bar>q - R\<bar> \<le> 1 + 1 / 2 ^ 36" using dist by simp
    then have "2 * \<bar>q - R\<bar> / R \<le> (1 + 1 / 2 ^ 36) / R"
      using Rpos by (intro divide_right_mono) simp_all
    then show ?thesis using assms(2) by (intro mult_left_mono) simp_all
  qed
  finally have "\<bar>fl a - t\<bar> / t \<le> (1 + 1 / 2 ^ 36) / R"
    using assms(2) by (simp add: field_simps)
  also have "\<dots> \<le> 1 / of_int topN"
  proof -
    have tp: "(0::rat) < of_int topN" using assms(5) by simp
    have "(of_int topN :: rat) \<le> 65535" using assms(6) by simp
    then have "(1 + 1 / 2 ^ 36) * of_int topN \<le> (of_int topN :: rat) + 1" by simp
    then show ?thesis using tp Rpos by (simp add: R_def field_simps)
  qed
  finally show ?thesis by (simp add: a_def)
qed

section \<open>The search picks the smallest accepted prescaler\<close>

text \<open>
  C1, as the code has it. Line 56 accepts a prescaler when its top is greater than 0
  and at most \<open>maxTop\<close>, \<open>maxTop\<close> itself included. Whenever some prescaler of the
  list is accepted, the prescaler of the returned record is the least accepted one,
  and the top of the record is the top computed for it.
\<close>

theorem smallest_accepted_prescaler:
  assumes "\<exists>N \<in> set prescalers. top_ok selectedTimer (candidate_top clockFreq N targetFreq)"
  shows "prescaler (calculation clockFreq targetFreq duty selectedTimer) =
           Min {N \<in> set prescalers. top_ok selectedTimer (candidate_top clockFreq N targetFreq)}
         \<and> candidate_top clockFreq
             (prescaler (calculation clockFreq targetFreq duty selectedTimer)) targetFreq =
           Some (top_val (calculation clockFreq targetFreq duty selectedTimer))"
proof -
  let ?P = "\<lambda>N. top_ok selectedTimer (candidate_top clockFreq N targetFreq)"
  from assms obtain y ys where f: "filter ?P prescalers = y # ys"
    by (cases "filter ?P prescalers") (auto simp: filter_empty_conv)
  then have "y \<in> set (filter ?P prescalers)" by simp
  then have "?P y" by simp
  then obtain topN where top: "candidate_top clockFreq y targetFreq = Some topN"
    by (auto simp: top_ok_def split: option.splits)
  from f top have "calculation clockFreq targetFreq duty selectedTimer =
      configured clockFreq targetFreq duty selectedTimer y topN"
    by (simp add: calculation_def search_filter)
  then have "prescaler (calculation clockFreq targetFreq duty selectedTimer) = y"
    and "top_val (calculation clockFreq targetFreq duty selectedTimer) = topN"
    by (simp_all add: configured_fields)
  then show ?thesis
    using sorted_filter_hd_Min [OF sorted_prescalers f] top by simp
qed

text \<open>
  C1 at 16 MHz, Timer 0 and the target 62378.16764132554 (the double
  \<open>8573190080124757 / 2 ^ 37\<close>). The quotient for prescaler 1 is rounded to 256.5,
  which \<^verbatim>\<open>Math.round\<close> takes to 257: top 256 is rejected, and prescaler 8 with top 31
  is the least accepted one.
\<close>

theorem smallest_accepted_prescaler_witness:
  "(\<exists>N \<in> set prescalers.
      top_ok 0 (candidate_top 16000000 N (8573190080124757 / 137438953472)))
   \<and> prescaler (calculation 16000000 (8573190080124757 / 137438953472) 50 0) =
       Min {N \<in> set prescalers.
            top_ok 0 (candidate_top 16000000 N (8573190080124757 / 137438953472))}
   \<and> candidate_top 16000000 1 (8573190080124757 / 137438953472) = Some 256
   \<and> prescaler (calculation 16000000 (8573190080124757 / 137438953472) 50 0) = 8
   \<and> top_val (calculation 16000000 (8573190080124757 / 137438953472) 50 0) = 31"
proof -
  have c1: "candidate_top 16000000 1 (8573190080124757 / 137438953472) = Some 256"
    by (simp add: eval_simps)
  have c8: "candidate_top 16000000 8 (8573190080124757 / 137438953472) = Some 31"
    by (simp add: eval_simps)
  have h: "\<exists>N \<in> set prescalers.
      top_ok 0 (candidate_top 16000000 N (8573190080124757 / 137438953472))"
    unfolding prescalers_def by (simp add: top_ok_def c1 c8 maxTop_def)
  have v: "prescaler (calculation 16000000 (8573190080124757 / 137438953472) 50 0) = 8
      \<and> top_val (calculation 16000000 (8573190080124757 / 137438953472) 50 0) = 31"
    by (simp add: eval_simps)
  from h c1 v smallest_accepted_prescaler [OF h, where duty = 50] show ?thesis
    by (intro conjI) simp_all
qed

text \<open>
  C1 read with a top strictly below \<open>maxTop\<close> fails. At 16 MHz, 62.5 kHz, Timer 0,
  prescaler 8 gives top 31, strictly between 0 and 255; prescaler 1 gives top 255,
  which is not strictly below 255; the solver returns prescaler 1, not 8.
\<close>

theorem strictly_below_maxTop_counterexample:
  "candidate_top 16000000 8 62500 = Some 31 \<and> (0::int) < 31 \<and> 31 < maxTop 0
   \<and> candidate_top 16000000 1 62500 = Some 255 \<and> \<not> 255 < maxTop 0
   \<and> prescaler (calculation 16000000 62500 50 0) = 1"
  by (simp add: eval_simps)

section \<open>Worked inputs\<close>

text \<open>
  C7. At 16 MHz, 1 kHz, 50 percent, Timer 1 the solver returns prescaler 1, top 15999,
  ocr 7999, an actual frequency of exactly 1000 and no error.
\<close>

theorem scenario_1kHz_timer1:
  "prescaler (calculation 16000000 1000 50 1) = 1
   \<and> top_val (calculation 16000000 1000 50 1) = 15999
   \<and> ocr (calculation 16000000 1000 50 1) = 7999
   \<and> actualFrequency (calculation 16000000 1000 50 1) = 1000
   \<and> error (calculation 16000000 1000 50 1) = None"
  by (simp add: eval_simps)

text \<open>
  C2 as stated fails: at 16 MHz, 1 Hz, 50 percent, Timer 1 the returned prescaler is
  not 1024 and the returned top is not 15624.
\<close>

theorem scenario_1Hz_timer1_counterexample:
  "prescaler (calculation 16000000 1 50 1) \<noteq> 1024
   \<and> top_val (calculation 16000000 1 50 1) \<noteq> 15624"
  by (simp add: eval_simps)

text \<open>
  C2, as the code has it. At that input prescaler 256 is the first one accepted
  (\<open>16000000 / 256 = 62500\<close>, top 62499, at most 65535), so the search stops there:
  prescaler 256, top 62499, an actual frequency of exactly 1, no error.
\<close>

theorem scenario_1Hz_timer1:
  "prescaler (calculation 16000000 1 50 1) = 256
   \<and> top_val (calculation 16000000 1 50 1) = 62499
   \<and> actualFrequency (calculation 16000000 1 50 1) = 1
   \<and> error (calculation 16000000 1 50 1) = None"
  by (simp add: eval_simps)

text \<open>
  C4, evaluated. At 16 MHz, 1 kHz, 0 percent, Timer 0 the compare value of line 58 is
  \<open>-1\<close>, the returned \<open>ocr\<close> is clamped to 0 and the top is 249. The returned
  \<open>actualDutyCycle\<close> is 0: line 59 computes it from the value before the clamp. The
  same formula on the returned \<open>ocr\<close>, \<open>(0 + 1) / 250 * 100\<close>, gives the double 0.4.
\<close>

theorem zero_duty_actualDutyCycle:
  "raw_ocr 249 0 = - 1
   \<and> top_val (calculation 16000000 1000 0 0) = 249
   \<and> ocr (calculation 16000000 1000 0 0) = 0
   \<and> actualDutyCycle (calculation 16000000 1000 0 0) = 0
   \<and> fl (fl (of_int (ocr (calculation 16000000 1000 0 0) + 1)
        / of_int (top_val (calculation 16000000 1000 0 0) + 1)) * 100) =
       3602879701896397 / 9007199254740992"
  by (simp add: eval_simps)

section \<open>Clock-select codes of Timer 0 and Timer 2\<close>

text \<open>
  C3, as the code has it. When a calculation for Timer 0 and one for Timer 2 both
  succeed with the same prescaler \<open>N\<close>, then \<open>N\<close> is one of 1, 8, 64, 256, 1024; the
  clock-select code of Timer 0 is 001, 010, 011, 100, 101 and that of Timer 2 is
  001, 010, 100, 110, 111 in this order; the second register of each record is the
  control register B, whose value is \<open>8 OR\<close> that code in hexadecimal; and the two
  codes (and so the two register values) are equal exactly when \<open>N\<close> is 1 or 8.
\<close>

theorem clock_select_timer0_timer2:
  assumes "error (calculation c0 t0 d0 0) = None"
    and "error (calculation c2 t2 d2 2) = None"
    and "prescaler (calculation c0 t0 d0 0) = N"
    and "prescaler (calculation c2 t2 d2 2) = N"
  shows "N \<in> {1, 8, 64, 256, 1024}
    \<and> csBits 0 N =
        (if N = 1 then ''001'' else if N = 8 then ''010'' else if N = 64 then ''011''
         else if N = 256 then ''100'' else ''101'')
    \<and> csBits 2 N =
        (if N = 1 then ''001'' else if N = 8 then ''010'' else if N = 64 then ''100''
         else if N = 256 then ''110'' else ''111'')
    \<and> value_str (registers (calculation c0 t0 d0 0) ! 1) =
        ''0x0'' @ nat_toString 16 (8 OR parseInt2 (csBits 0 N))
    \<and> value_str (registers (calculation c2 t2 d2 2) ! 1) =
        ''0x0'' @ nat_toString 16 (8 OR parseInt2 (csBits 2 N))
    \<and> value_str (registers (calculation c0 t0 d0 0) ! 1) =
        (if N = 1 then ''0x09'' else if N = 8 then ''0x0a'' else if N = 64 then ''0x0b''
         else if N = 256 then ''0x0c'' else ''0x0d'')
    \<and> value_str (registers (calculation c2 t2 d2 2) ! 1) =
        (if N = 1 then ''0x09'' else if N = 8 then ''0x0a'' else if N = 64 then ''0x0c''
         else if N = 256 then ''0x0e'' else ''0x0f'')
    \<and> (csBits 0 N = csBits 2 N \<longleftrightarrow> N \<in> {1, 8})
    \<and> (value_str (registers (calculation c0 t0 d0 0) ! 1) =
          value_str (registers (calculation c2 t2 d2 2) ! 1) \<longleftrightarrow> N \<in> {1, 8})"
proof -
  have r0: "N \<in> set prescalers
      \<and> value_str (registers (calculation c0 t0 d0 0) ! 1) = tccrb 0 N"
  proof (cases rule: calculation_cases [where c = c0 and t = t0 and d = d0 and tm = 0])
    case (configured M topM)
    with assms(3) show ?thesis
      by (simp add: configured_fields make_registers_def)
  next
    case unachievable
    with assms(1) show ?thesis by (simp add: unachievable_def)
  qed
  have r2: "value_str (registers (calculation c2 t2 d2 2) ! 1) = tccrb 2 N"
  proof (cases rule: calculation_cases [where c = c2 and t = t2 and d = d2 and tm = 2])
    case (configured M topM)
    with assms(4) show ?thesis
      by (simp add: configured_fields make_registers_def)
  next
    case unachievable
    with assms(2) show ?thesis by (simp add: unachievable_def)
  qed
  from r0 have N: "N \<in> {1, 8, 64, 256, 1024}"
    by (simp add: prescalers_def)
  have cs0: "csBits 0 N =
        (if N = 1 then ''001'' else if N = 8 then ''010'' else if N = 64 then ''011''
         else if N = 256 then ''100'' else ''101'')"
    by (simp add: csBits_def)
  have cs2: "csBits 2 N =
        (if N = 1 then ''001'' else if N = 8 then ''010'' else if N = 64 then ''100''
         else if N = 256 then ''110'' else ''111'')"
    using N by (auto simp: csBits_def)
  have v0: "value_str (registers (calculation c0 t0 d0 0) ! 1) =
        (if N = 1 then ''0x09'' else if N = 8 then ''0x0a'' else if N = 64 then ''0x0b''
         else if N = 256 then ''0x0c'' else ''0x0d'')"
    using r0 by (simp add: tccrb_timer0)
  have v2: "value_str (registers (calculation c2 t2 d2 2) ! 1) =
        (if N = 1 then ''0x09'' else if N = 8 then ''0x0a'' else if N = 64 then ''0x0c''
         else if N = 256 then ''0x0e'' else ''0x0f'')"
    using r2 N by (auto simp: tccrb_timer2)
  have e0: "value_str (registers (calculation c0 t0 d0 0) ! 1) =
        ''0x0'' @ nat_toString 16 (8 OR parseInt2 (csBits 0 N))"
    using r0 by (simp only: tccrb_def)
  have e2: "value_str (registers (calculation c2 t2 d2 2) ! 1) =
        ''0x0'' @ nat_toString 16 (8 OR parseInt2 (csBits 2 N))"
    using r2 by (simp only: tccrb_def)
  have eq: "csBits 0 N = csBits 2 N \<longleftrightarrow> N \<in> {1, 8}"
    using r0 by (simp add: csBits_timer0_timer2)
  have veq: "value_str (registers (calculation c0 t0 d0 0) ! 1) =
      value_str (registers (calculation c2 t2 d2 2) ! 1) \<longleftrightarrow> N \<in> {1, 8}"
    using r0 r2 by (simp add: tccrb_timer0_timer2)
  from N cs0 cs2 e0 e2 v0 v2 eq veq show ?thesis
    by (intro conjI)
qed

text \<open>
  C3 at 16 MHz, 10 kHz: both timers take prescaler 8 and both write \<open>0x0a\<close>.
\<close>

theorem clock_select_timer0_timer2_witness:
  "error (calculation 16000000 10000 50 0) = None
   \<and> error (calculation 16000000 10000 50 2) = None
   \<and> prescaler (calculation 16000000 10000 50 0) = 8
   \<and> prescaler (calculation 16000000 10000 50 2) = 8
   \<and> value_str (registers (calculation 16000000 10000 50 0) ! 1) = ''0x0a''
   \<and> value_str (registers (calculation 16000000 10000 50 2) ! 1) = ''0x0a''
   \<and> csBits 0 8 = csBits 2 8"
proof -
  have h0: "error (calculation 16000000 10000 50 0) = None"
    and h2: "error (calculation 16000000 10000 50 2) = None"
    and p0: "prescaler (calculation 16000000 10000 50 0) = 8"
    and p2: "prescaler (calculation 16000000 10000 50 2) = 8"
    by (simp_all add: eval_simps)
  show ?thesis
    using h0 h2 p0 p2 clock_select_timer0_timer2 [OF h0 h2 p0 p2]
    by (simp add: parseInt2_values nat_toString.simps digit_char_def)
qed

text \<open>
  C3 as stated fails. At 16 MHz, 1 kHz both timers succeed with prescaler 64; Timer 0
  has the code 011 and writes \<open>0x0b\<close>, Timer 2 has the code 100 and writes \<open>0x0c\<close>.
\<close>

theorem clock_select_prescaler64_counterexample:
  "error (calculation 16000000 1000 50 0) = None
   \<and> error (calculation 16000000 1000 50 2) = None
   \<and> prescaler (calculation 16000000 1000 50 0) = 64
   \<and> prescaler (calculation 16000000 1000 50 2) = 64
   \<and> csBits 0 64 = ''011'' \<and> csBits 2 64 = ''100''
   \<and> value_str (registers (calculation 16000000 1000 50 0) ! 1) = ''0x0b''
   \<and> value_str (registers (calculation 16000000 1000 50 2) ! 1) = ''0x0c''"
  by (simp add: eval_simps csBits_def make_registers_def tccrb_timer0 tccrb_timer2)

section \<open>Success and failure of the calculation\<close>

text \<open>
  C5. For every input, the returned record has no error if and only if its register
  list is not empty and its top is greater than 0.
\<close>

theorem error_null_iff_configured:
  "error (calculation clockFreq targetFreq duty selectedTimer) = None \<longleftrightarrow>
     registers (calculation clockFreq targetFreq duty selectedTimer) \<noteq> []
     \<and> 0 < top_val (calculation clockFreq targetFreq duty selectedTimer)"
proof (cases rule: calculation_cases
    [where c = clockFreq and t = targetFreq and d = duty and tm = selectedTimer])
  case (configured N topN)
  then show ?thesis
    by (simp add: configured_fields make_registers_nonempty)
next
  case unachievable
  then show ?thesis
    by (simp add: unachievable_def)
qed

text \<open>C5 on a success (16 MHz, 1 kHz, Timer 1) and on a failure (16 MHz, 1/128 Hz, Timer 1).\<close>

theorem error_null_iff_configured_witness:
  "error (calculation 16000000 1000 50 1) = None
   \<and> registers (calculation 16000000 1000 50 1) \<noteq> []
   \<and> 0 < top_val (calculation 16000000 1000 50 1)
   \<and> error (calculation 16000000 (1 / 128) 50 1) \<noteq> None
   \<and> \<not> (registers (calculation 16000000 (1 / 128) 50 1) \<noteq> []
         \<and> 0 < top_val (calculation 16000000 (1 / 128) 50 1))"
proof -
  have "error (calculation 16000000 1000 50 1) = None"
    and "error (calculation 16000000 (1 / 128) 50 1) \<noteq> None"
    by (simp_all add: eval_simps unachievable_def)
  then show ?thesis
    using error_null_iff_configured [of 16000000 1000 50 1]
      error_null_iff_configured [of 16000000 "1 / 128" 50 1]
    by simp
qed

text \<open>
  C6. When no prescaler of the list is accepted, the returned record has an error, no
  registers, top 0, ocr 0 and actual frequency 0, and its \<open>frequency\<close> and
  \<open>dutyCycle\<close> are the requested target frequency and duty cycle.
\<close>

theorem no_candidate_error_record:
  assumes "\<forall>N \<in> set prescalers. \<not> top_ok selectedTimer (candidate_top clockFreq N targetFreq)"
  shows "error (calculation clockFreq targetFreq duty selectedTimer) \<noteq> None
    \<and> registers (calculation clockFreq targetFreq duty selectedTimer) = []
    \<and> top_val (calculation clockFreq targetFreq duty selectedTimer) = 0
    \<and> ocr (calculation clockFreq targetFreq duty selectedTimer) = 0
    \<and> actualFrequency (calculation clockFreq targetFreq duty selectedTimer) = 0
    \<and> frequency (calculation clockFreq targetFreq duty selectedTimer) = targetFreq
    \<and> dutyCycle (calculation clockFreq targetFreq duty selectedTimer) = duty"
proof -
  from assms have "search clockFreq targetFreq duty selectedTimer prescalers = None"
    by (simp add: search_None)
  then have "calculation clockFreq targetFreq duty selectedTimer =
      unachievable targetFreq duty selectedTimer"
    by (simp add: calculation_def)
  then show ?thesis
    by (simp add: unachievable_def)
qed

text \<open>
  C6 at 16 MHz, Timer 0 and the target 60.91617933723197 (the double
  \<open>8573190080124757 / 2 ^ 47\<close>): the tops are 262655, 32831, 4103, 1025 and, the
  quotient for prescaler 1024 being rounded to 256.5, 256. None is accepted.
\<close>

theorem no_candidate_error_record_witness:
  "\<not> top_ok 0 (candidate_top 16000000 1 (8573190080124757 / 140737488355328))
    \<and> \<not> top_ok 0 (candidate_top 16000000 8 (8573190080124757 / 140737488355328))
    \<and> \<not> top_ok 0 (candidate_top 16000000 64 (8573190080124757 / 140737488355328))
    \<and> \<not> top_ok 0 (candidate_top 16000000 256 (8573190080124757 / 140737488355328))
    \<and> \<not> top_ok 0 (candidate_top 16000000 1024 (8573190080124757 / 140737488355328))
    \<and> candidate_top 16000000 1024 (8573190080124757 / 140737488355328) = Some 256
    \<and> error (calculation 16000000 (8573190080124757 / 140737488355328) 50 0) \<noteq> None
    \<and> registers (calculation 16000000 (8573190080124757 / 140737488355328) 50 0) = []
    \<and> top_val (calculation 16000000 (8573190080124757 / 140737488355328) 50 0) = 0
    \<and> ocr (calculation 16000000 (8573190080124757 / 140737488355328) 50 0) = 0
    \<and> actualFrequency (calculation 16000000 (8573190080124757 / 140737488355328) 50 0) = 0
    \<and> frequency (calculation 16000000 (8573190080124757 / 140737488355328) 50 0) = 8573190080124757 / 140737488355328
    \<and> dutyCycle (calculation 16000000 (8573190080124757 / 140737488355328) 50 0) = 50"
proof -
  have c: "candidate_top 16000000 1 (8573190080124757 / 140737488355328) = Some 262655"
    "candidate_top 16000000 8 (8573190080124757 / 140737488355328) = Some 32831"
    "candidate_top 16000000 64 (8573190080124757 / 140737488355328) = Some 4103"
    "candidate_top 16000000 256 (8573190080124757 / 140737488355328) = Some 1025"
    "candidate_top 16000000 1024 (8573190080124757 / 140737488355328) = Some 256"
    by (simp_all add: eval_simps)
  have n: "\<not> top_ok 0 (candidate_top 16000000 1 (8573190080124757 / 140737488355328))
      \<and> \<not> top_ok 0 (candidate_top 16000000 8 (8573190080124757 / 140737488355328))
      \<and> \<not> top_ok 0 (candidate_top 16000000 64 (8573190080124757 / 140737488355328))
      \<and> \<not> top_ok 0 (candidate_top 16000000 256 (8573190080124757 / 140737488355328))
      \<and> \<not> top_ok 0 (candidate_top 16000000 1024 (8573190080124757 / 140737488355328))"
    by (simp add: top_ok_def c maxTop_def)
  then have h: "\<forall>N \<in> set prescalers. \<not> top_ok 0 (candidate_top 16000000 N (8573190080124757 / 140737488355328))"
    by (simp add: prescalers_def)
  from n c(5) no_candidate_error_record [OF h, where duty = 50] show ?thesis
    by (intro conjI) simp_all
qed

text \<open>
  C10. Whenever the returned record has an error, its prescaler and its actual duty
  cycle are 0 as well: the record is the literal of lines 105 to 116, which echoes
  the timer, the target frequency and the duty cycle and has 0 or empty elsewhere.
\<close>

theorem error_record_all_zero:
  assumes "error (calculation clockFreq targetFreq duty selectedTimer) \<noteq> None"
  shows "prescaler (calculation clockFreq targetFreq duty selectedTimer) = 0
    \<and> actualDutyCycle (calculation clockFreq targetFreq duty selectedTimer) = 0
    \<and> calculation clockFreq targetFreq duty selectedTimer =
        \<lparr>timer = selectedTimer, prescaler = 0, top_val = 0, ocr = 0,
         frequency = targetFreq, actualFrequency = 0,
         dutyCycle = duty, actualDutyCycle = 0,
         error = Some FrequencyNotAchievable, registers = []\<rparr>"
proof (cases rule: calculation_cases
    [where c = clockFreq and t = targetFreq and d = duty and tm = selectedTimer])
  case (configured N topN)
  with assms show ?thesis
    by (simp add: configured_fields)
next
  case unachievable
  then show ?thesis
    by (simp add: unachievable_def)
qed

text \<open>C10 at 16 MHz, 1/128 Hz, Timer 1.\<close>

theorem error_record_all_zero_witness:
  "error (calculation 16000000 (1 / 128) 50 1) \<noteq> None
   \<and> prescaler (calculation 16000000 (1 / 128) 50 1) = 0
   \<and> actualDutyCycle (calculation 16000000 (1 / 128) 50 1) = 0
   \<and> calculation 16000000 (1 / 128) 50 1 =
        \<lparr>timer = 1, prescaler = 0, top_val = 0, ocr = 0,
         frequency = 1 / 128, actualFrequency = 0,
         dutyCycle = 50, actualDutyCycle = 0,
         error = Some FrequencyNotAchievable, registers = []\<rparr>"
proof -
  have h: "error (calculation 16000000 (1 / 128) 50 1) \<noteq> None"
    by (simp add: eval_simps unachievable_def)
  show ?thesis
    using h error_record_all_zero [OF h] by simp
qed

section \<open>Bounds on a configured result\<close>

text \<open>
  C8. On every success the top is greater than 0, at most 65535 for Timer 1 and at
  most 255 for Timers 0 and 2.
\<close>

theorem top_within_timer_width:
  assumes "error (calculation clockFreq targetFreq duty selectedTimer) = None"
  shows "0 < top_val (calculation clockFreq targetFreq duty selectedTimer)
    \<and> (selectedTimer = 1 \<longrightarrow>
         top_val (calculation clockFreq targetFreq duty selectedTimer) \<le> 65535)
    \<and> (selectedTimer \<in> {0, 2} \<longrightarrow>
         top_val (calculation clockFreq targetFreq duty selectedTimer) \<le> 255)"
proof (cases rule: calculation_cases
    [where c = clockFreq and t = targetFreq and d = duty and tm = selectedTimer])
  case (configured N topN)
  then show ?thesis
    by (auto simp: configured_fields maxTop_def split: if_splits)
next
  case unachievable
  with assms show ?thesis
    by (simp add: unachievable_def)
qed

text \<open>
  C8 on one success for each of the three timers; for Timer 1 at 20 MHz and the
  target 13333333.333333334 (the double \<open>7158278826666667 / 2 ^ 29\<close>), where the
  quotient is rounded to 1.5 and the top is 1.
\<close>

theorem top_within_timer_width_witness:
  "error (calculation 20000000 (7158278826666667 / 536870912) 50 1) = None
   \<and> 0 < top_val (calculation 20000000 (7158278826666667 / 536870912) 50 1)
   \<and> top_val (calculation 20000000 (7158278826666667 / 536870912) 50 1) \<le> 65535
   \<and> top_val (calculation 20000000 (7158278826666667 / 536870912) 50 1) = 1
   \<and> error (calculation 16000000 62500 50 0) = None
   \<and> 0 < top_val (calculation 16000000 62500 50 0)
   \<and> top_val (calculation 16000000 62500 50 0) \<le> 255
   \<and> error (calculation 16000000 62500 50 2) = None
   \<and> 0 < top_val (calculation 16000000 62500 50 2)
   \<and> top_val (calculation 16000000 62500 50 2) \<le> 255"
proof -
  have h1: "error (calculation 20000000 (7158278826666667 / 536870912) 50 1) = None"
    and t1: "top_val (calculation 20000000 (7158278826666667 / 536870912) 50 1) = 1"
    and h0: "error (calculation 16000000 62500 50 0) = None"
    and h2: "error (calculation 16000000 62500 50 2) = None"
    by (simp_all add: eval_simps)
  show ?thesis
    using h1 t1 h0 h2 top_within_timer_width [OF h1] top_within_timer_width [OF h0]
      top_within_timer_width [OF h2]
    by simp
qed

text \<open>
  C9. On every success with a positive clock frequency and a positive target
  frequency (a double, as every input is), the relative frequency error
  \<open>\<bar>actualFrequency - targetFreq\<bar> / targetFreq\<close> is at most \<open>1 / top\<close>. Here
  \<open>actualFrequency\<close> is the double the code returns, and the error is the exact
  value of the expression on it.
\<close>

theorem relative_frequency_error:
  assumes "error (calculation clockFreq targetFreq duty selectedTimer) = None"
    and "0 < clockFreq" and "0 < targetFreq" and "is_double targetFreq"
  shows "\<bar>actualFrequency (calculation clockFreq targetFreq duty selectedTimer) - targetFreq\<bar>
           / targetFreq
         \<le> 1 / of_int (top_val (calculation clockFreq targetFreq duty selectedTimer))"
proof (cases rule: calculation_cases
    [where c = clockFreq and t = targetFreq and d = duty and tm = selectedTimer])
  case (configured N topN)
  have le: "topN \<le> 65535"
    using configured(4) by (simp add: maxTop_def split: if_splits)
  have "\<bar>fl (clockFreq / of_int (N * (1 + topN))) - targetFreq\<bar> / targetFreq
      \<le> 1 / of_int topN"
    using assms(2,3,4) prescalers_positive [OF configured(1)] configured(3) le
      candidate_top_accepted(2) [OF configured(2) configured(3) le assms(4) configured(1)]
    by (rule relative_error_bound)
  with configured(5) show ?thesis
    by (simp only: configured_fields)
next
  case unachievable
  with assms(1) show ?thesis
    by (simp add: unachievable_def)
qed

text \<open>
  C9 at 16 MHz, 3 kHz, Timer 1: top 5332, and the actual frequency is the double
  nearest to \<open>16000000 / 5333\<close>, 3000.1875117194822.
\<close>

theorem relative_frequency_error_witness:
  "error (calculation 16000000 3000 50 1) = None \<and> (0::rat) < 16000000 \<and> (0::rat) < 3000
   \<and> is_double 3000
   \<and> \<bar>actualFrequency (calculation 16000000 3000 50 1) - 3000\<bar> / 3000
       \<le> 1 / of_int (top_val (calculation 16000000 3000 50 1))
   \<and> actualFrequency (calculation 16000000 3000 50 1) = 3298741054643915 / 1099511627776
   \<and> top_val (calculation 16000000 3000 50 1) = 5332"
proof -
  have h: "error (calculation 16000000 3000 50 1) = None"
    by (simp add: eval_simps)
  have d: "is_double 3000"
    by (simp add: is_double_def fl_eval)
  have v: "actualFrequency (calculation 16000000 3000 50 1) = 3298741054643915 / 1099511627776
      \<and> top_val (calculation 16000000 3000 50 1) = 5332"
    by (simp add: eval_simps)
  show ?thesis
    using h d v relative_frequency_error [OF h _ _ d] by simp
qed

end
